theory Spec2Isabelle
  imports Main "HOL-Library.Word"
begin

unbundle bit_operations_syntax

section \<open>Register overlay of \<^verbatim>\<open>main.c\<close>\<close>

text \<open>
  The program is written for an 8-bit AVR microcontroller (it includes avr-libc's
  \<^verbatim>\<open>util/delay.h\<close>). A register is one byte of storage seen through a union
  \<^verbatim>\<open>U_type\<close>: member \<^verbatim>\<open>Reg\<close> is the whole byte, member \<^verbatim>\<open>Bit\<close> is a struct of eight
  one-bit bit-fields \<^verbatim>\<open>PIN0 .. PIN7\<close>.
\<close>

type_synonym uint8_t = "8 word"
type_synonym addr = nat

text \<open>
  A struct is described by its members in declaration order, each with its size; the
  offset of a member is the total size of the members declared before it (every member
  here has alignment 1, so there is no padding). The same rule gives bit offsets inside
  \<^verbatim>\<open>GPIO_pinType\<close> (sizes in bits; avr-gcc allocates bit-fields from the least significant
  bit upwards) and byte offsets inside \<^verbatim>\<open>GPIO_Type\<close> (sizes in bytes).
\<close>

fun offset_in :: "('f \<times> nat) list \<Rightarrow> 'f \<Rightarrow> nat" where
  "offset_in [] f = 0"
| "offset_in ((g, w) # fs) f = (if g = f then 0 else w + offset_in fs f)"

fun width_in :: "('f \<times> nat) list \<Rightarrow> 'f \<Rightarrow> nat" where
  "width_in [] f = 0"
| "width_in ((g, w) # fs) f = (if g = f then w else width_in fs f)"

definition total_size :: "('f \<times> nat) list \<Rightarrow> nat" where
  "total_size fs = sum_list (map snd fs)"

text \<open>\<^verbatim>\<open>typedef struct { uint8_t PIN0:1; ... uint8_t PIN7:1; } GPIO_pinType;  //1 Byte\<close>\<close>

datatype GPIO_pin = PIN0 | PIN1 | PIN2 | PIN3 | PIN4 | PIN5 | PIN6 | PIN7

definition GPIO_pinType :: "(GPIO_pin \<times> nat) list" where
  "GPIO_pinType =
     [(PIN0, 1), (PIN1, 1), (PIN2, 1), (PIN3, 1), (PIN4, 1), (PIN5, 1), (PIN6, 1), (PIN7, 1)]"

definition bit_offset :: "GPIO_pin \<Rightarrow> nat" where
  "bit_offset p = offset_in GPIO_pinType p"

definition bit_width :: "GPIO_pin \<Rightarrow> nat" where
  "bit_width p = width_in GPIO_pinType p"

definition sizeof_uint8_t :: nat where
  "sizeof_uint8_t = 1"

definition sizeof_GPIO_pinType :: nat where
  "sizeof_GPIO_pinType = (total_size GPIO_pinType + 7) div 8"

text \<open>\<^verbatim>\<open>typedef union { uint8_t Reg; GPIO_pinType Bit; } U_type;\<close>: both members start at
  offset 0 and the union is as large as its largest member.\<close>

definition sizeof_U_type :: nat where
  "sizeof_U_type = max sizeof_uint8_t sizeof_GPIO_pinType"

text \<open>\<^verbatim>\<open>typedef struct { U_type PIN; U_type DDR; U_type PORT; } GPIO_Type;\<close>\<close>

datatype GPIO_reg = PIN | DDR | PORT

definition GPIO_Type :: "(GPIO_reg \<times> nat) list" where
  "GPIO_Type = [(PIN, sizeof_U_type), (DDR, sizeof_U_type), (PORT, sizeof_U_type)]"

definition sizeof_GPIO_Type :: nat where
  "sizeof_GPIO_Type = total_size GPIO_Type"

text \<open>\<^verbatim>\<open>#define GPIOB ((GPIO_Type*) 0x23)\<close> and \<^verbatim>\<open>#define GPIOD ((GPIO_Type*) 0x29)\<close>\<close>

definition GPIOB :: addr where
  "GPIOB = 0x23"

definition GPIOD :: addr where
  "GPIOD = 0x29"

text \<open>The address of \<^verbatim>\<open>base->r\<close>.\<close>

definition reg_addr :: "addr \<Rightarrow> GPIO_reg \<Rightarrow> addr" where
  "reg_addr base r = base + offset_in GPIO_Type r"

subsection \<open>The two views of a register byte\<close>

text \<open>
  Reading a bit-field extracts its bits from the byte. Assigning to a bit-field converts
  the value to the field's width (for a one-bit unsigned field: the value modulo 2) and
  replaces exactly the field's bits in the byte.
\<close>

definition bitfield_get :: "GPIO_pin \<Rightarrow> uint8_t \<Rightarrow> uint8_t" where
  "bitfield_get p b = drop_bit (bit_offset p) b AND mask (bit_width p)"

definition bitfield_set :: "GPIO_pin \<Rightarrow> uint8_t \<Rightarrow> uint8_t \<Rightarrow> uint8_t" where
  "bitfield_set p v b =
     (b AND NOT (push_bit (bit_offset p) (mask (bit_width p))))
       OR push_bit (bit_offset p) (v AND mask (bit_width p))"

section \<open>Machine state\<close>

text \<open>
  The registers are bytes of the data address space, modelled as plain storage. Next to
  the memory the state carries the program point, the time spent waiting (in
  milliseconds) and the sequence of register accesses made so far, oldest first.
  The program points are named after the source lines of \<^verbatim>\<open>main\<close>; \<open>L44\<close> is the end
  of \<^verbatim>\<open>main\<close>, behind the loop.
\<close>

datatype label = L35 | L36 | L37 | L39 | L40 | L41 | L42 | L44

datatype access = Read addr | Write addr uint8_t

record state =
  pc :: label
  mem :: "addr \<Rightarrow> uint8_t"
  clock :: nat
  trace :: "access list"

definition load :: "addr \<Rightarrow> state \<Rightarrow> uint8_t \<times> state" where
  "load a s = (mem s a, s\<lparr>trace := trace s @ [Read a]\<rparr>)"

definition store :: "addr \<Rightarrow> uint8_t \<Rightarrow> state \<Rightarrow> state" where
  "store a v s = s\<lparr>mem := (mem s)(a := v), trace := trace s @ [Write a v]\<rparr>"

text \<open>\<^verbatim>\<open>x = r.Reg\<close> and \<^verbatim>\<open>r.Reg = v\<close> for the register at address \<open>a\<close>.\<close>

definition Reg_read :: "addr \<Rightarrow> state \<Rightarrow> uint8_t \<times> state" where
  "Reg_read a s = load a s"

definition Reg_write :: "addr \<Rightarrow> uint8_t \<Rightarrow> state \<Rightarrow> state" where
  "Reg_write a v s = store a v s"

text \<open>\<^verbatim>\<open>x = r.Bit.p\<close> and \<^verbatim>\<open>r.Bit.p = v\<close>: the byte holding the bit-field is loaded, and
  for an assignment the modified byte is stored back.\<close>

definition Bit_read :: "addr \<Rightarrow> GPIO_pin \<Rightarrow> state \<Rightarrow> uint8_t \<times> state" where
  "Bit_read a p s = (case load a s of (b, s') \<Rightarrow> (bitfield_get p b, s'))"

definition Bit_write :: "addr \<Rightarrow> GPIO_pin \<Rightarrow> uint8_t \<Rightarrow> state \<Rightarrow> state" where
  "Bit_write a p v s = (case load a s of (b, s') \<Rightarrow> store a (bitfield_set p v b) s')"

text \<open>Modelled from the spec: \<^verbatim>\<open>_delay_ms\<close> of avr-libc's \<^verbatim>\<open>util/delay.h\<close>, which is not
  part of the repository: a blocking delay primitive accepting a duration in whole
  milliseconds, with no return value and no failure mode. It touches no register; the
  time it takes is added to the clock. Every other statement takes no time.\<close>

definition delay_ms :: "nat \<Rightarrow> state \<Rightarrow> state" where
  "delay_ms ms s = s\<lparr>clock := clock s + ms\<rparr>"

section \<open>The program\<close>

text \<open>
  One step executes the statement at the program point:
  \<^verbatim>\<open>
  35  GPIOB->DDR.Reg = 0xAA;
  36  GPIOD->DDR.Bit.PIN0 = 1;
  37  while(1)
      {
  39    GPIOB->PORT.Reg = 0xAA;
  40    _delay_ms(1000);
  41    GPIOB->PORT.Reg = 0x00;
  42    _delay_ms(1000);
      };
  44 };
  \<close>
  At \<open>L37\<close> the loop condition is tested: control enters the body when the condition is
  not zero and leaves the loop for \<open>L44\<close> otherwise. A machine at \<open>L44\<close> has left \<^verbatim>\<open>main\<close>
  and stays there.
\<close>

definition step :: "state \<Rightarrow> state" where
  "step s =
     (case pc s of
        L35 \<Rightarrow> (Reg_write (reg_addr GPIOB DDR) 0xAA s)\<lparr>pc := L36\<rparr>
      | L36 \<Rightarrow> (Bit_write (reg_addr GPIOD DDR) PIN0 1 s)\<lparr>pc := L37\<rparr>
      | L37 \<Rightarrow> s\<lparr>pc := (if (1::int) \<noteq> 0 then L39 else L44)\<rparr>
      | L39 \<Rightarrow> (Reg_write (reg_addr GPIOB PORT) 0xAA s)\<lparr>pc := L40\<rparr>
      | L40 \<Rightarrow> (delay_ms 1000 s)\<lparr>pc := L41\<rparr>
      | L41 \<Rightarrow> (Reg_write (reg_addr GPIOB PORT) 0x00 s)\<lparr>pc := L42\<rparr>
      | L42 \<Rightarrow> (delay_ms 1000 s)\<lparr>pc := L37\<rparr>
      | L44 \<Rightarrow> s)"

fun run :: "nat \<Rightarrow> state \<Rightarrow> state" where
  "run 0 s = s"
| "run (Suc n) s = run n (step s)"

text \<open>\<^verbatim>\<open>main\<close> is entered at line 35 with the registers holding whatever they hold.\<close>

definition start :: "(addr \<Rightarrow> uint8_t) \<Rightarrow> state" where
  "start m = \<lparr>pc = L35, mem = m, clock = 0, trace = []\<rparr>"

section \<open>Observing the program\<close>

text \<open>
  Time passes only inside \<^verbatim>\<open>_delay_ms\<close>. A machine whose next statement is one of the two
  delays, entered at time \<open>clock s\<close>, is waiting at every time \<open>t\<close> before
  \<open>clock s + 1000\<close>. The state observed at time \<open>t\<close> is the state in which the machine
  waits at that time: the run is followed, statement by statement, up to the first wait
  that has not elapsed at \<open>t\<close> (or to the end of \<^verbatim>\<open>main\<close>).
\<close>

definition waiting :: "nat \<Rightarrow> state \<Rightarrow> bool" where
  "waiting t s = ((pc s = L40 \<or> pc s = L42) \<and> t < clock s + 1000)"

text \<open>The number of statements between a program point and the next delay bounds the
  steps that take no time.\<close>

fun pc_rank :: "label \<Rightarrow> nat" where
  "pc_rank L35 = 5"
| "pc_rank L36 = 4"
| "pc_rank L37 = 3"
| "pc_rank L39 = 2"
| "pc_rank L40 = 1"
| "pc_rank L41 = 2"
| "pc_rank L42 = 1"
| "pc_rank L44 = 0"

function run_until :: "nat \<Rightarrow> state \<Rightarrow> state" where
  "run_until t s = (if waiting t s \<or> pc s = L44 then s else run_until t (step s))"
  by pat_completeness auto
termination
  apply (relation "measure (\<lambda>(t, s). (t + 1000 - clock s) * 8 + pc_rank (pc s))")
   apply simp
  apply (auto simp add: waiting_def step_def Reg_write_def Bit_write_def store_def load_def
      delay_ms_def split: label.splits)
  done

declare run_until.simps [simp del]

definition state_at :: "nat \<Rightarrow> (addr \<Rightarrow> uint8_t) \<Rightarrow> state" where
  "state_at t m = run_until t (start m)"

definition PORTB_at :: "nat \<Rightarrow> (addr \<Rightarrow> uint8_t) \<Rightarrow> uint8_t" where
  "PORTB_at t m = mem (state_at t m) (reg_addr GPIOB PORT)"

text \<open>
  The two states of the toggle loop as the specification describes them: HIGH holds the
  pattern on the first port's output register for the first delay, LOW holds zero there
  for the second delay.
\<close>

definition in_HIGH :: "state \<Rightarrow> bool" where
  "in_HIGH s = (pc s = L40 \<and> mem s (reg_addr GPIOB PORT) = 0xAA)"

definition in_LOW :: "state \<Rightarrow> bool" where
  "in_LOW s = (pc s = L42 \<and> mem s (reg_addr GPIOB PORT) = 0x00)"

text \<open>The statements of the loop, lines 37 to 42.\<close>

definition in_loop :: "state \<Rightarrow> bool" where
  "in_loop s = (pc s = L37 \<or> pc s = L39 \<or> pc s = L40 \<or> pc s = L41 \<or> pc s = L42)"

text \<open>The stores and the loads of an access sequence, in order.\<close>

fun writes_of :: "access list \<Rightarrow> (addr \<times> uint8_t) list" where
  "writes_of [] = []"
| "writes_of (Write a v # es) = (a, v) # writes_of es"
| "writes_of (Read a # es) = writes_of es"

fun reads_of :: "access list \<Rightarrow> addr list" where
  "reads_of [] = []"
| "reads_of (Read a # es) = a # reads_of es"
| "reads_of (Write a v # es) = reads_of es"

text \<open>Two machines agree on everything the program can depend on: the program point,
  the clock, the accesses made, and the one register the program loads.\<close>

definition sim :: "state \<Rightarrow> state \<Rightarrow> bool" where
  "sim s1 s2 =
     (pc s1 = pc s2 \<and> clock s1 = clock s2 \<and> trace s1 = trace s2 \<and> mem s1 0x2A = mem s2 0x2A)"

text \<open>A memory for concrete runs: every byte is zero.\<close>

definition all_zero :: "addr \<Rightarrow> uint8_t" where
  "all_zero a = 0"

section \<open>Layout\<close>

lemma bit_offset_simps:
  "bit_offset PIN0 = 0" "bit_offset PIN1 = 1" "bit_offset PIN2 = 2" "bit_offset PIN3 = 3"
  "bit_offset PIN4 = 4" "bit_offset PIN5 = 5" "bit_offset PIN6 = 6" "bit_offset PIN7 = 7"
  by (simp_all add: bit_offset_def GPIO_pinType_def)

lemma bit_width_eq: "bit_width p = 1"
  by (cases p) (simp_all add: bit_width_def GPIO_pinType_def)

lemma bit_offset_less: "bit_offset p < 8"
  by (cases p) (simp_all add: bit_offset_simps)

lemma sizeof_simps: "sizeof_U_type = 1" "sizeof_GPIO_Type = 3"
  by (simp_all add: sizeof_GPIO_Type_def GPIO_Type_def sizeof_U_type_def sizeof_uint8_t_def
      sizeof_GPIO_pinType_def total_size_def GPIO_pinType_def)

lemma reg_addr_simps:
  "reg_addr base PIN = base" "reg_addr base DDR = base + 1" "reg_addr base PORT = base + 2"
  by (simp_all add: reg_addr_def GPIO_Type_def sizeof_simps)

lemma reg_addr_GPIO:
  "reg_addr GPIOB PIN = 0x23" "reg_addr GPIOB DDR = 0x24" "reg_addr GPIOB PORT = 0x25"
  "reg_addr GPIOD PIN = 0x29" "reg_addr GPIOD DDR = 0x2A" "reg_addr GPIOD PORT = 0x2B"
  by (simp_all add: reg_addr_simps GPIOB_def GPIOD_def)

section \<open>Bit-field assignment\<close>

lemma bitfield_set_other: "j \<noteq> bit_offset p \<Longrightarrow> bit (bitfield_set p v b) j = bit b j"
  by (auto simp add: bitfield_set_def bit_width_eq bit_simps dest: bit_imp_le_length)

lemma bitfield_set_self: "bit (bitfield_set p v b) (bit_offset p) = bit v 0"
  using bit_offset_less [of p] by (auto simp add: bitfield_set_def bit_width_eq bit_simps)

lemma bitfield_set_PIN0_1: "bitfield_set PIN0 1 b = b OR 1"
  by (rule bit_eqI) (auto simp add: bitfield_set_def bit_width_eq bit_offset_simps bit_simps)

section \<open>The effect of one statement\<close>

lemma pc_step:
  "pc (step s) = (case pc s of L35 \<Rightarrow> L36 | L36 \<Rightarrow> L37 | L37 \<Rightarrow> L39 | L39 \<Rightarrow> L40
     | L40 \<Rightarrow> L41 | L41 \<Rightarrow> L42 | L42 \<Rightarrow> L37 | L44 \<Rightarrow> L44)"
  by (simp add: step_def Reg_write_def Bit_write_def store_def load_def delay_ms_def split: label.split)

lemma mem_step:
  "mem (step s) = (case pc s of
       L35 \<Rightarrow> (mem s)(0x24 := 0xAA)
     | L36 \<Rightarrow> (mem s)(0x2A := mem s 0x2A OR 1)
     | L39 \<Rightarrow> (mem s)(0x25 := 0xAA)
     | L41 \<Rightarrow> (mem s)(0x25 := 0x00)
     | _ \<Rightarrow> mem s)"
  by (simp add: step_def Reg_write_def Bit_write_def store_def load_def delay_ms_def
      reg_addr_GPIO bitfield_set_PIN0_1 split: label.split)

lemma clock_step:
  "clock (step s) = (case pc s of L40 \<Rightarrow> clock s + 1000 | L42 \<Rightarrow> clock s + 1000 | _ \<Rightarrow> clock s)"
  by (simp add: step_def Reg_write_def Bit_write_def store_def load_def delay_ms_def split: label.split)

lemma trace_step:
  "trace (step s) = trace s @ (case pc s of
       L35 \<Rightarrow> [Write 0x24 0xAA]
     | L36 \<Rightarrow> [Read 0x2A, Write 0x2A (mem s 0x2A OR 1)]
     | L39 \<Rightarrow> [Write 0x25 0xAA]
     | L41 \<Rightarrow> [Write 0x25 0x00]
     | _ \<Rightarrow> [])"
  by (simp add: step_def Reg_write_def Bit_write_def store_def load_def delay_ms_def
      reg_addr_GPIO bitfield_set_PIN0_1 split: label.split)

lemmas step_fields = pc_step mem_step clock_step trace_step

lemma run_add: "run (m + n) s = run n (run m s)"
  by (induction m arbitrary: s) simp_all

section \<open>Control never leaves the loop\<close>

lemma step_not_exit: "pc s \<noteq> L44 \<Longrightarrow> pc (step s) \<noteq> L44"
  by (simp add: pc_step split: label.split)

lemma run_not_exit: "pc s \<noteq> L44 \<Longrightarrow> pc (run n s) \<noteq> L44"
  by (induction n arbitrary: s) (simp_all add: step_not_exit)

lemma step_not_L35: "pc (step s) \<noteq> L35"
  by (simp add: pc_step split: label.split)

lemma run_not_L35: "pc s \<noteq> L35 \<Longrightarrow> pc (run n s) \<noteq> L35"
  by (induction n arbitrary: s) (simp_all add: step_not_L35)

lemma pc_L35_once: "(pc (run n (start m)) = L35) = (n = 0)"
proof (cases n)
  case 0
  then show ?thesis by (simp add: start_def)
next
  case (Suc k)
  have "pc (run k (step (start m))) \<noteq> L35"
    by (rule run_not_L35) (rule step_not_L35)
  with Suc show ?thesis by simp
qed

section \<open>The state after lines 35 and 36\<close>

lemma after_init:
  "run 2 (start m) = \<lparr>pc = L37, mem = m(0x24 := 0xAA, 0x2A := m 0x2A OR 1), clock = 0,
      trace = [Write 0x24 0xAA, Read 0x2A, Write 0x2A (m 0x2A OR 1)]\<rparr>"
  by (simp add: eval_nat_numeral start_def step_def Reg_write_def Bit_write_def store_def load_def
      reg_addr_GPIO bitfield_set_PIN0_1)

section \<open>What the loop leaves alone\<close>

lemma step_in_loop: "in_loop s \<Longrightarrow> in_loop (step s)"
  by (auto simp add: in_loop_def pc_step)

lemma step_frame: "in_loop s \<Longrightarrow> a \<noteq> 0x25 \<Longrightarrow> mem (step s) a = mem s a"
  by (auto simp add: in_loop_def mem_step)

lemma run_frame: "in_loop s \<Longrightarrow> a \<noteq> 0x25 \<Longrightarrow> mem (run n s) a = mem s a"
  by (induction n arbitrary: s) (simp_all add: step_in_loop step_frame)

section \<open>Whole iterations\<close>

lemma one_iteration:
  "pc s = L37 \<Longrightarrow> run 5 s = s\<lparr>mem := (mem s)(0x25 := 0x00), clock := clock s + 2000,
      trace := trace s @ [Write 0x25 0xAA, Write 0x25 0x00]\<rparr>"
  by (simp add: eval_nat_numeral step_def Reg_write_def store_def delay_ms_def reg_addr_GPIO)

lemma iterations:
  "pc s = L37 \<Longrightarrow> pc (run (5 * N) s) = L37 \<and> clock (run (5 * N) s) = clock s + 2000 * N"
proof (induction N arbitrary: s)
  case 0
  then show ?case by simp
next
  case (Suc N)
  have "run (5 * Suc N) s = run (5 * N) (run 5 s)"
    using run_add [of 5 "5 * N" s] by simp
  moreover have "pc (run 5 s) = L37" "clock (run 5 s) = clock s + 2000"
    using Suc.prems by (simp_all add: one_iteration)
  ultimately show ?case using Suc.IH [of "run 5 s"] by simp
qed


section \<open>The state at a given time\<close>

lemma run_until_stop: "waiting t s \<or> pc s = L44 \<Longrightarrow> run_until t s = s"
  using run_until.simps [of t s] by simp

lemma run_until_go: "\<not> waiting t s \<Longrightarrow> pc s \<noteq> L44 \<Longrightarrow> run_until t s = run_until t (step s)"
  using run_until.simps [of t s] by simp

lemma run_until_reachable: "\<exists>n. run_until t s = run n s"
proof (induction t s rule: run_until.induct)
  case (1 t s)
  show ?case
  proof (cases "waiting t s \<or> pc s = L44")
    case True
    then have "run_until t s = run 0 s" by (simp add: run_until_stop)
    then show ?thesis by blast
  next
    case False
    with 1 obtain n where "run_until t (step s) = run n (step s)" by blast
    with False have "run_until t s = run (Suc n) s" by (simp add: run_until_go)
    then show ?thesis by blast
  qed
qed

lemma run_until_skip: "pc s \<noteq> L40 \<Longrightarrow> pc s \<noteq> L42 \<Longrightarrow> pc s \<noteq> L44 \<Longrightarrow> run_until t s = run_until t (step s)"
  by (rule run_until_go) (simp_all add: waiting_def)

lemma run_until_wait: "pc s = L40 \<or> pc s = L42 \<Longrightarrow> t < clock s + 1000 \<Longrightarrow> run_until t s = s"
  by (rule run_until_stop) (simp add: waiting_def)

lemma run_until_elapsed: "pc s = L40 \<or> pc s = L42 \<Longrightarrow> clock s + 1000 \<le> t \<Longrightarrow> run_until t s = run_until t (step s)"
  by (rule run_until_go) (auto simp add: waiting_def)

lemma run_until_loop:
  "pc s = L37 \<Longrightarrow> clock s \<le> t \<Longrightarrow>
     pc (run_until t s) = (if even ((t - clock s) div 1000) then L40 else L42) \<and>
     clock (run_until t s) = clock s + 1000 * ((t - clock s) div 1000) \<and>
     mem (run_until t s) = (mem s)(0x25 := (if even ((t - clock s) div 1000) then 0xAA else 0x00)) \<and>
     trace (run_until t s) = trace s @ concat (replicate ((t - clock s) div 2000) [Write 0x25 0xAA, Write 0x25 0x00])
        @ (if even ((t - clock s) div 1000) then [Write 0x25 0xAA] else [Write 0x25 0xAA, Write 0x25 0x00])"
proof (induction "t - clock s" arbitrary: s rule: less_induct)
  case less
  define s2 where "s2 = step (step s)"
  have s2: "pc s2 = L40" "clock s2 = clock s" "mem s2 = (mem s)(0x25 := 0xAA)"
     "trace s2 = trace s @ [Write 0x25 0xAA]"
    using less.prems by (simp_all add: s2_def step_fields)
  have "run_until t s = run_until t (step s)"
    using less.prems by (simp add: run_until_skip)
  also have "\<dots> = run_until t s2"
    unfolding s2_def using less.prems by (simp add: run_until_skip pc_step)
  finally have r2: "run_until t s = run_until t s2" .
  show ?case
  proof (cases "t < clock s + 1000")
    case True
    then have "run_until t s2 = s2" by (simp add: run_until_wait s2)
    moreover from True less.prems have "(t - clock s) div 1000 = 0" "(t - clock s) div 2000 = 0" by simp_all
    ultimately show ?thesis by (simp add: r2 s2)
  next
    case False
    define s4 where "s4 = step (step s2)"
    have s4: "pc s4 = L42" "clock s4 = clock s + 1000" "mem s4 = (mem s)(0x25 := 0x00)"
      "trace s4 = trace s @ [Write 0x25 0xAA, Write 0x25 0x00]"
      by (simp_all add: s4_def step_fields s2)
    have "run_until t s2 = run_until t (step s2)"
      using False by (simp add: run_until_elapsed s2)
    also have "\<dots> = run_until t s4"
      unfolding s4_def by (simp add: run_until_skip pc_step s2)
    finally have r4: "run_until t s = run_until t s4"
      by (simp add: r2)
    show ?thesis
    proof (cases "t < clock s + 2000")
      case True
      then have "run_until t s4 = s4" by (simp add: run_until_wait s4)
      moreover from True False have "(t - clock s) div 1000 = 1" "(t - clock s) div 2000 = 0" by simp_all
      ultimately show ?thesis by (simp add: r4 s4)
    next
      case False
      define s5 where "s5 = step s4"
      have s5: "pc s5 = L37" "clock s5 = clock s + 2000" "mem s5 = (mem s)(0x25 := 0x00)"
        "trace s5 = trace s @ [Write 0x25 0xAA, Write 0x25 0x00]"
        by (simp_all add: s5_def step_fields s4)
      have "run_until t s4 = run_until t s5"
        unfolding s5_def using False by (simp add: run_until_elapsed s4)
      then have r5: "run_until t s = run_until t s5"
        by (simp add: r4)
      define q where "q = (t - clock s5) div 1000"
      define h where "h = (t - clock s5) div 2000"
      have d: "(t - clock s) div 1000 = Suc (Suc q)" "(t - clock s) div 2000 = Suc h"
        using False by (simp_all add: s5 q_def h_def)
      have "t - clock s5 < t - clock s" using False by (simp add: s5)
      moreover have "clock s5 \<le> t" using False by (simp add: s5)
      ultimately have ih:
        "pc (run_until t s5) = (if even q then L40 else L42)"
        "clock (run_until t s5) = clock s5 + 1000 * q"
        "mem (run_until t s5) = (mem s5)(0x25 := (if even q then 0xAA else 0x00))"
        "trace (run_until t s5) = trace s5 @ concat (replicate h [Write 0x25 0xAA, Write 0x25 0x00])
           @ (if even q then [Write 0x25 0xAA] else [Write 0x25 0xAA, Write 0x25 0x00])"
        using less.hyps [of s5] s5(1) unfolding q_def h_def by blast+
      show ?thesis
        unfolding r5 d ih s5 by simp
    qed
  qed
qed

lemma state_at_closed:
  "pc (state_at t m) = (if even (t div 1000) then L40 else L42)"
  "clock (state_at t m) = 1000 * (t div 1000)"
  "mem (state_at t m) = m(0x24 := 0xAA, 0x2A := m 0x2A OR 1, 0x25 := (if even (t div 1000) then 0xAA else 0x00))"
proof -
  have "run_until t (start m) = run_until t (step (start m))"
    by (simp add: run_until_skip start_def)
  also have "\<dots> = run_until t (step (step (start m)))"
    by (simp add: run_until_skip pc_step start_def)
  finally have "run_until t (start m) = run_until t (run 2 (start m))"
    by (simp add: eval_nat_numeral)
  moreover have "pc (run 2 (start m)) = L37" "clock (run 2 (start m)) \<le> t"
    by (simp_all add: after_init)
  ultimately show "pc (state_at t m) = (if even (t div 1000) then L40 else L42)"
  "clock (state_at t m) = 1000 * (t div 1000)"
  "mem (state_at t m) = m(0x24 := 0xAA, 0x2A := m 0x2A OR 1, 0x25 := (if even (t div 1000) then 0xAA else 0x00))"
    using run_until_loop [of "run 2 (start m)" t] by (simp_all add: state_at_def after_init)
qed

section \<open>Dependence on the initial memory\<close>

lemma step_sim: "sim s1 s2 \<Longrightarrow> sim (step s1) (step s2)"
  by (auto simp add: sim_def step_fields split: label.split)

lemma run_sim: "sim s1 s2 \<Longrightarrow> sim (run n s1) (run n s2)"
  by (induction n arbitrary: s1 s2) (simp_all add: step_sim)

lemma reads_of_append: "reads_of (xs @ ys) = reads_of xs @ reads_of ys"
  by (induction xs rule: reads_of.induct) simp_all

lemma step_reads: "in_loop s \<Longrightarrow> reads_of (trace (step s)) = reads_of (trace s)"
  by (auto simp add: in_loop_def trace_step reads_of_append)

lemma reads_in_loop: "in_loop s \<Longrightarrow> reads_of (trace (run n s)) = reads_of (trace s)"
  by (induction n arbitrary: s) (simp_all add: step_in_loop step_reads)

lemma PORTB_at_closed: "PORTB_at t m = (if even (t div 1000) then 0xAA else 0x00)"
  by (simp add: PORTB_at_def state_at_closed(3) reg_addr_GPIO)

lemma step_reads_subset: "set (reads_of (trace s)) \<subseteq> {0x2A} \<Longrightarrow> set (reads_of (trace (step s))) \<subseteq> {0x2A}"
  by (cases "pc s") (simp_all add: trace_step reads_of_append)

lemma run_reads_subset: "set (reads_of (trace s)) \<subseteq> {0x2A} \<Longrightarrow> set (reads_of (trace (run n s))) \<subseteq> {0x2A}"
  by (induction n arbitrary: s) (simp_all add: step_reads_subset)

lemma run_init_add: "run (2 + n) (start m) = run n (run 2 (start m))"
  by (rule run_add)

lemma after_init_fields:
  "pc (run 2 (start m)) = L37" "clock (run 2 (start m)) = 0"
  "mem (run 2 (start m)) = m(0x24 := 0xAA, 0x2A := m 0x2A OR 1)"
  "trace (run 2 (start m)) = [Write 0x24 0xAA, Read 0x2A, Write 0x2A (m 0x2A OR 1)]"
  by (simp_all only: after_init state.simps)

lemma in_loop_after_init: "in_loop (run 2 (start m))"
  unfolding in_loop_def after_init_fields by simp

section \<open>The claims\<close>

text \<open>
  Claim C1. From the entry of \<^verbatim>\<open>main\<close>, the first port's output register holds 0xAA during
  the first interval of 1000 ms, 0x00 during the second, 0xAA during the third, and so on
  for every interval: throughout the \<open>k\<close>-th interval (times \<open>1000 * k \<le> t < 1000 * (k + 1)\<close>)
  the machine waits in the delay it entered at time \<open>1000 * k\<close>, the register holds 0xAA
  when \<open>k\<close> is even and 0x00 when \<open>k\<close> is odd, and 1000 ms later it holds the other value.
  The state observed is a state of the run.
  Time is the time spent in \<^verbatim>\<open>_delay_ms\<close>; the stores themselves take none.
\<close>

theorem toggle_alternates_forever:
  assumes "1000 * k \<le> t" and "t < 1000 * (k + 1)"
  shows "PORTB_at t m = (if even k then 0xAA else 0x00)
       \<and> pc (state_at t m) = (if even k then L40 else L42)
       \<and> clock (state_at t m) = 1000 * k
       \<and> PORTB_at (t + 1000) m = (if even k then 0x00 else 0xAA)
       \<and> (\<exists>n. state_at t m = run n (start m))"
proof -
  from assms have "t div 1000 = k" by simp
  moreover from this have "(t + 1000) div 1000 = Suc k" by simp
  moreover have "\<exists>n. state_at t m = run n (start m)"
    unfolding state_at_def by (rule run_until_reachable)
  ultimately show ?thesis
    by (simp add: PORTB_at_closed state_at_closed(1,2))
qed

theorem toggle_alternates_forever_witness:
  "1000 * 3 \<le> (3999::nat) \<and> (3999::nat) < 1000 * (3 + 1)
   \<and> PORTB_at 3999 all_zero = 0x00 \<and> pc (state_at 3999 all_zero) = L42
   \<and> clock (state_at 3999 all_zero) = 3000 \<and> PORTB_at 4999 all_zero = 0xAA"
  using toggle_alternates_forever [of 3 3999 all_zero] by simp

text \<open>
  Claim C2. After the two initialising statements (lines 35 and 36) the machine stands at
  the head of the loop and the first port's direction register holds 0xAA, the byte whose
  odd-numbered bits are set (binary 10101010). Line 35 is the program point of the
  initial state only: no later state of the run is at it again.
\<close>

theorem init_sets_DDRB:
  "mem (run 2 (start m)) (reg_addr GPIOB DDR) = 0xAA
   \<and> pc (run 2 (start m)) = L37
   \<and> (pc (run n (start m)) = L35) = (n = 0)
   \<and> map (bit (0xAA :: uint8_t)) [0, 1, 2, 3, 4, 5, 6, 7]
       = [False, True, False, True, False, True, False, True]"
  by (simp add: after_init reg_addr_GPIO pc_L35_once)

text \<open>
  Claim C3. Assigning to one bit-field of a register whose byte view reads \<open>b\<close> leaves
  every other bit of the byte view as it was in \<open>b\<close>, for every byte \<open>b\<close>, every field and
  every assigned value; the field's own bit becomes the lowest bit of the value. The eight
  fields sit at the bit positions 0 to 7.
\<close>

theorem bitfield_write_isolated:
  assumes "fst (Reg_read a s) = b" and "j \<noteq> bit_offset p"
  shows "bit (fst (Reg_read a (Bit_write a p v s))) j = bit b j
       \<and> bit (fst (Reg_read a (Bit_write a p v s))) (bit_offset p) = bit v 0
       \<and> map bit_offset [PIN0, PIN1, PIN2, PIN3, PIN4, PIN5, PIN6, PIN7] = [0, 1, 2, 3, 4, 5, 6, 7]"
  using assms
  by (simp add: Reg_read_def Bit_write_def load_def store_def bitfield_set_other
      bitfield_set_self bit_offset_simps)

theorem bitfield_write_isolated_witness:
  "fst (Reg_read 0x2A (start (all_zero(0x2A := 0xF0)))) = 0xF0 \<and> 7 \<noteq> bit_offset PIN5
   \<and> bit (fst (Reg_read 0x2A (Bit_write 0x2A PIN5 0 (start (all_zero(0x2A := 0xF0)))))) 7
       = bit (0xF0 :: uint8_t) 7"
  using bitfield_write_isolated [of "0x2A" "start (all_zero(0x2A := 0xF0))" "0xF0" 7 PIN5 0]
  by (simp add: Reg_read_def load_def start_def bit_offset_simps)

text \<open>
  Claim C4. Writing a byte \<open>v\<close> to the byte view of a register and reading the byte view
  right after returns \<open>v\<close>.
\<close>

theorem Reg_write_read:
  "fst (Reg_read a (Reg_write a v s)) = v"
  by (simp add: Reg_read_def Reg_write_def load_def store_def)

text \<open>
  Claim C5. The loop is never left: after any number \<open>n\<close> of statements the machine is not
  at the end of \<^verbatim>\<open>main\<close>. After \<open>N\<close> iterations of the loop (two initialising statements and
  five statements an iteration, the test of the condition included) it is back at the head
  of the loop at time \<open>2000 * N\<close>, and the state in which it then waits is HIGH. At every
  time the state in which the machine waits is HIGH or LOW.
\<close>

theorem loop_never_exits:
  "pc (run n (start m)) \<noteq> L44
   \<and> pc (run (2 + 5 * N) (start m)) = L37
   \<and> clock (run (2 + 5 * N) (start m)) = 2000 * N
   \<and> in_HIGH (state_at (2000 * N) m)
   \<and> (in_HIGH (state_at t m) \<or> in_LOW (state_at t m))"
proof -
  have "pc (run n (start m)) \<noteq> L44"
    by (rule run_not_exit) (simp add: start_def)
  moreover have "pc (run (2 + 5 * N) (start m)) = L37 \<and> clock (run (2 + 5 * N) (start m)) = 2000 * N"
    using iterations [OF after_init_fields(1) [of m], of N]
    unfolding run_init_add after_init_fields by simp
  moreover have "in_HIGH (state_at (2000 * N) m)"
    by (simp add: in_HIGH_def state_at_closed reg_addr_GPIO)
  moreover have "in_HIGH (state_at t m) \<or> in_LOW (state_at t m)"
    by (simp add: in_HIGH_def in_LOW_def state_at_closed reg_addr_GPIO)
  ultimately show ?thesis by blast
qed

text \<open>
  Claim C6. For the run from the entry of \<^verbatim>\<open>main\<close>, whatever the registers held before, the
  first port's output register reads 0xAA at 0 ms, 0x00 at 1500 ms and 0xAA at 2500 ms.
\<close>

theorem samples_0_1500_2500:
  "PORTB_at 0 m = 0xAA \<and> PORTB_at 1500 m = 0x00 \<and> PORTB_at 2500 m = 0xAA"
  by (simp add: PORTB_at_closed)

text \<open>
  Claim C7. After the two initialising statements, bit 0 of the second port's direction
  register is set and every other bit of that register is as it was on entry of
  \<^verbatim>\<open>main\<close>: the register holds its former value with bit 0 set.
\<close>

theorem init_sets_DDRD_bit0:
  assumes "0 < j"
  shows "bit (mem (run 2 (start m)) (reg_addr GPIOD DDR)) 0
       \<and> bit (mem (run 2 (start m)) (reg_addr GPIOD DDR)) j = bit (m (reg_addr GPIOD DDR)) j
       \<and> mem (run 2 (start m)) (reg_addr GPIOD DDR) = m (reg_addr GPIOD DDR) OR 1"
  using assms by (simp add: after_init reg_addr_GPIO bit_simps)

theorem init_sets_DDRD_bit0_witness:
  "(0::nat) < 4
   \<and> bit (mem (run 2 (start (all_zero(0x2A := 0xF0)))) (reg_addr GPIOD DDR)) 0
   \<and> bit (mem (run 2 (start (all_zero(0x2A := 0xF0)))) (reg_addr GPIOD DDR)) 4
   \<and> mem (run 2 (start (all_zero(0x2A := 0xF0)))) (reg_addr GPIOD DDR) = 0xF1"
  using init_sets_DDRD_bit0 [of 4 "all_zero(0x2A := 0xF0)"]
  by (simp add: reg_addr_GPIO)

text \<open>
  Claim C8. A register is one byte, a port block \<^verbatim>\<open>GPIO_Type\<close> is three bytes, and its
  members are, in this order and at consecutive addresses from the base, \<^verbatim>\<open>PIN\<close> (the
  input state), \<^verbatim>\<open>DDR\<close> (the direction) and \<^verbatim>\<open>PORT\<close> (the output). The two blocks are at
  the fixed bases 0x23 and 0x29.
\<close>

theorem GPIO_Type_layout:
  "sizeof_U_type = 1 \<and> sizeof_GPIO_Type = 3
   \<and> map fst GPIO_Type = [PIN, DDR, PORT]
   \<and> reg_addr base PIN = base \<and> reg_addr base DDR = base + 1 \<and> reg_addr base PORT = base + 2
   \<and> map (reg_addr GPIOB) [PIN, DDR, PORT] = [0x23, 0x24, 0x25]
   \<and> map (reg_addr GPIOD) [PIN, DDR, PORT] = [0x29, 0x2A, 0x2B]"
  by (simp add: sizeof_simps reg_addr_simps GPIOB_def GPIOD_def) (simp add: GPIO_Type_def)

text \<open>
  Claim C9. At every point of the run from the head of the loop on (any number \<open>n\<close> of
  statements after the two initialising ones) the first port's direction register holds
  0xAA and bit 0 of the second port's direction register is set; every byte other than
  the first port's output register holds what it held when the loop was entered.
\<close>

theorem loop_preserves_DDR:
  assumes "a \<noteq> reg_addr GPIOB PORT"
  shows "mem (run (2 + n) (start m)) (reg_addr GPIOB DDR) = 0xAA
       \<and> bit (mem (run (2 + n) (start m)) (reg_addr GPIOD DDR)) 0
       \<and> mem (run (2 + n) (start m)) a = mem (run 2 (start m)) a"
proof -
  have f: "mem (run (2 + n) (start m)) a = mem (run 2 (start m)) a" if "a \<noteq> 0x25" for a
    unfolding run_init_add using in_loop_after_init that by (rule run_frame)
  have "mem (run (2 + n) (start m)) 0x24 = mem (run 2 (start m)) 0x24"
    by (rule f) simp
  then have "mem (run (2 + n) (start m)) 0x24 = 0xAA"
    unfolding after_init_fields by simp
  moreover have "mem (run (2 + n) (start m)) 0x2A = mem (run 2 (start m)) 0x2A"
    by (rule f) simp
  then have "mem (run (2 + n) (start m)) 0x2A = m 0x2A OR 1"
    unfolding after_init_fields by simp
  moreover from assms have "mem (run (2 + n) (start m)) a = mem (run 2 (start m)) a"
    by (intro f) (simp add: reg_addr_GPIO)
  ultimately show ?thesis
    by (simp only: reg_addr_GPIO) (simp add: bit_simps)
qed

theorem loop_preserves_DDR_witness:
  "(0x2B::nat) \<noteq> reg_addr GPIOB PORT
   \<and> mem (run (2 + 8) (start all_zero)) (reg_addr GPIOB DDR) = 0xAA
   \<and> bit (mem (run (2 + 8) (start all_zero)) (reg_addr GPIOD DDR)) 0
   \<and> mem (run (2 + 8) (start all_zero)) 0x2B = mem (run 2 (start all_zero)) 0x2B"
  using loop_preserves_DDR [of "0x2B" 8 all_zero] by (simp add: reg_addr_GPIO)

text \<open>
  Claim C10 says that the program reads no register at all. The assignment to the
  bit-field in line 36 loads the second port's direction register: started on a memory of
  zeros, the first two statements load address 0x2A, and the byte they store there is
  another one when the register held 0xFE before.
\<close>

theorem reads_DDRD_counterexample:
  "reads_of (trace (run 2 (start all_zero))) = [reg_addr GPIOD DDR]
   \<and> writes_of (trace (run 2 (start all_zero)))
       \<noteq> writes_of (trace (run 2 (start (all_zero(reg_addr GPIOD DDR := 0xFE)))))"
  by (simp add: after_init reg_addr_GPIO all_zero_def)

text \<open>
  Claim C10, amended. The program never loads an input-state register; its only load is
  that of the second port's direction register in line 36. For two runs whose initial
  memories differ at most in the two input-state registers, the sequences of register
  accesses, and so of register writes (addresses, values and order), are the same after
  any number of statements.
\<close>

theorem inputs_do_not_interfere:
  assumes "\<forall>a. a \<noteq> reg_addr GPIOB PIN \<and> a \<noteq> reg_addr GPIOD PIN \<longrightarrow> m1 a = m2 a"
  shows "trace (run n (start m1)) = trace (run n (start m2))
       \<and> writes_of (trace (run n (start m1))) = writes_of (trace (run n (start m2)))
       \<and> set (reads_of (trace (run n (start m1)))) \<subseteq> {reg_addr GPIOD DDR}
       \<and> reads_of (trace (run (2 + n) (start m1))) = [reg_addr GPIOD DDR]"
proof -
  from assms have "m1 0x2A = m2 0x2A" by (simp add: reg_addr_GPIO)
  then have "sim (start m1) (start m2)" by (simp add: sim_def start_def)
  then have "sim (run n (start m1)) (run n (start m2))" by (rule run_sim)
  then have t: "trace (run n (start m1)) = trace (run n (start m2))" by (simp add: sim_def)
  have "set (reads_of (trace (run n (start m1)))) \<subseteq> {0x2A}"
    by (rule run_reads_subset) (simp add: start_def)
  moreover have "reads_of (trace (run (2 + n) (start m1))) = [0x2A]"
    unfolding run_init_add reads_in_loop [OF in_loop_after_init] after_init_fields by simp
  ultimately show ?thesis using t by (simp add: reg_addr_GPIO)
qed

theorem inputs_do_not_interfere_witness:
  "trace (run 9 (start all_zero)) = trace (run 9 (start (all_zero(0x23 := 0xFF, 0x29 := 0x55))))
   \<and> writes_of (trace (run 9 (start all_zero)))
      = [(0x24, 0xAA), (0x2A, 0x01), (0x25, 0xAA), (0x25, 0x00), (0x25, 0xAA)]
   \<and> reads_of (trace (run (2 + 9) (start all_zero))) = [0x2A]"
proof -
  have w: "writes_of (trace (run 9 (start all_zero)))
      = [(0x24, 0xAA), (0x2A, 0x01), (0x25, 0xAA), (0x25, 0x00), (0x25, 0xAA)]"
    by (simp add: eval_nat_numeral start_def step_def Reg_write_def Bit_write_def store_def load_def
      delay_ms_def reg_addr_GPIO bitfield_set_PIN0_1 all_zero_def)
  show ?thesis
    using inputs_do_not_interfere [of all_zero "all_zero(0x23 := 0xFF, 0x29 := 0x55)" 9] w
    by (simp add: reg_addr_GPIO)
qed

end
